theory Spec2Isabelle
  imports Main "HOL-Library.AList" "HOL-Library.Product_Lexorder"
begin

section \<open>Course scheduler: a shallow embedding of main.py\<close>

text \<open>
  Strings are \<open>string\<close> (lists of 8-bit characters); the case conversions below are
  those of Python's \<open>str\<close> on ASCII text, which is what the day picker and the
  \<open>HH:MM\<close> clock format produce. A Python \<open>dict\<close> is an association list
  in insertion order, read with \<open>map_of\<close>, written with \<open>AList.update\<close> (an
  existing key keeps its position, a new key goes last) and shrunk with \<open>AList.delete\<close>.
\<close>

subsection \<open>Strings\<close>

text \<open>\<open>s.lower()\<close> and \<open>s.upper()\<close>, character by character.\<close>

definition char_lower :: "char \<Rightarrow> char" where
  "char_lower c =
     (case map_of (zip ''ABCDEFGHIJKLMNOPQRSTUVWXYZ'' ''abcdefghijklmnopqrstuvwxyz'') c of
        Some l \<Rightarrow> l
      | None \<Rightarrow> c)"

definition char_upper :: "char \<Rightarrow> char" where
  "char_upper c =
     (case map_of (zip ''abcdefghijklmnopqrstuvwxyz'' ''ABCDEFGHIJKLMNOPQRSTUVWXYZ'') c of
        Some u \<Rightarrow> u
      | None \<Rightarrow> c)"

definition lower :: "string \<Rightarrow> string" where
  "lower s = map char_lower s"

text \<open>\<open>s.capitalize()\<close>: first character upper case, the rest lower case.\<close>

fun capitalize :: "string \<Rightarrow> string" where
  "capitalize [] = []"
| "capitalize (c # cs) = char_upper c # lower cs"

text \<open>
  \<open>s.strip()\<close>: leading and trailing white space removed. The ASCII characters
  for which \<open>str.isspace\<close> holds are the codes 9 to 13 and 28 to 32.
\<close>

definition is_space :: "char \<Rightarrow> bool" where
  "is_space c \<longleftrightarrow>
     c \<in> set [CHR 0x09, CHR 0x0A, CHR 0x0B, CHR 0x0C, CHR 0x0D,
               CHR 0x1C, CHR 0x1D, CHR 0x1E, CHR 0x1F, CHR 0x20]"

definition strip :: "string \<Rightarrow> string" where
  "strip s = rev (dropWhile is_space (rev (dropWhile is_space s)))"

subsection \<open>Clock times\<close>

text \<open>
  A naive \<open>datetime.time\<close>. Python orders two of them as the tuples
  \<open>(hour, minute, second, microsecond)\<close>.
\<close>

record time =
  hour :: nat
  minute :: nat
  second :: nat
  microsecond :: nat

definition time_tuple :: "time \<Rightarrow> nat \<times> nat \<times> nat \<times> nat" where
  "time_tuple t = (hour t, minute t, second t, microsecond t)"

text \<open>The values a \<open>datetime.time\<close> object can hold.\<close>

definition valid_time :: "time \<Rightarrow> bool" where
  "valid_time t \<longleftrightarrow> hour t < 24 \<and> minute t < 60 \<and> second t < 60 \<and> microsecond t < 1000000"

definition minute_resolution :: "time \<Rightarrow> bool" where
  "minute_resolution t \<longleftrightarrow> second t = 0 \<and> microsecond t = 0"

datatype error = ValueError | KeyError | IndexError | OverflowError

text \<open>The integers that fit the C \<open>int\<close> the \<open>time\<close> constructor converts to.\<close>

definition c_int :: "int \<Rightarrow> bool" where
  "c_int n \<longleftrightarrow> - 2147483648 \<le> n \<and> n \<le> 2147483647"

text \<open>
  \<open>time(hour=h, minute=m)\<close> on the integers of the spin boxes: \<open>OverflowError\<close>
  when an argument does not fit a C \<open>int\<close>, \<open>ValueError\<close> when the hour is not
  in 0..23 or the minute not in 0..59.
\<close>

definition mk_time :: "int \<Rightarrow> int \<Rightarrow> error + time" where
  "mk_time h m =
     (if \<not> c_int h \<or> \<not> c_int m then Inl OverflowError
      else if 0 \<le> h \<and> h \<le> 23 \<and> 0 \<le> m \<and> m \<le> 59
      then Inr \<lparr>hour = nat h, minute = nat m, second = 0, microsecond = 0\<rparr>
      else Inl ValueError)"

text \<open>The minute-resolution time \<open>h:m\<close>, for writing examples.\<close>

definition clock :: "nat \<Rightarrow> nat \<Rightarrow> time" where
  "clock h m = \<lparr>hour = h, minute = m, second = 0, microsecond = 0\<rparr>"

text \<open>Minutes since midnight.\<close>

definition minutes_of :: "time \<Rightarrow> nat" where
  "minutes_of t = 60 * hour t + minute t"

subsection \<open>Sections and the overlap test\<close>

text \<open>A section is the tuple \<open>(day_of_week, start_time, end_time)\<close>.\<close>

type_synonym course_section = "string \<times> time \<times> time"

fun times_overlap :: "course_section \<Rightarrow> course_section \<Rightarrow> bool" where
  "times_overlap (day1, start1, end1) (day2, start2, end2) =
     (if lower day1 \<noteq> lower day2 then False
      else (time_tuple start1 < time_tuple end2) \<and> (time_tuple end1 > time_tuple start2))"

text \<open>
  The two nested \<open>for\<close> loops of \<open>is_valid_schedule\<close>, by index. Each loop
  answers \<open>False\<close> when the function has returned \<open>False\<close> from inside it.
\<close>

function loop_j :: "course_section list \<Rightarrow> nat \<Rightarrow> nat \<Rightarrow> bool" where
  "loop_j schedule i j =
     (if j < length schedule
      then (if times_overlap (schedule ! i) (schedule ! j) then False
            else loop_j schedule i (Suc j))
      else True)"
  by pat_completeness auto
termination
  by (relation "measure (\<lambda>(schedule, i, j). length schedule - j)") auto

declare loop_j.simps [simp del]

function loop_i :: "course_section list \<Rightarrow> nat \<Rightarrow> bool" where
  "loop_i schedule i =
     (if i < length schedule
      then (if loop_j schedule i (Suc i) then loop_i schedule (Suc i) else False)
      else True)"
  by pat_completeness auto
termination
  by (relation "measure (\<lambda>(schedule, i). length schedule - i)") auto

declare loop_i.simps [simp del]

definition is_valid_schedule :: "course_section list \<Rightarrow> bool" where
  "is_valid_schedule schedule = loop_i schedule 0"

subsection \<open>Day names\<close>

definition day_order :: "(string \<times> nat) list" where
  "day_order =
     [(''monday'', 0), (''tuesday'', 1), (''wednesday'', 2), (''thursday'', 3),
      (''friday'', 4), (''saturday'', 5), (''sunday'', 6)]"

text \<open>\<open>day_order.get(day_str.lower(), 999)\<close>\<close>

definition get_day_index :: "string \<Rightarrow> nat" where
  "get_day_index day_str =
     (case map_of day_order (lower day_str) of Some i \<Rightarrow> i | None \<Rightarrow> 999)"

subsection \<open>Clock strings\<close>

text \<open>\<open>strftime\<close>'s \<open>%H\<close> and \<open>%M\<close> print a number below 100 as two decimal digits.\<close>

definition digit_char :: "nat \<Rightarrow> char" where
  "digit_char n = ''0123456789'' ! n"

definition two_digits :: "nat \<Rightarrow> string" where
  "two_digits n = [digit_char (n div 10), digit_char (n mod 10)]"

definition time_to_string :: "time \<Rightarrow> string" where
  "time_to_string t = two_digits (hour t) @ '':'' @ two_digits (minute t)"

text \<open>
  \<open>datetime.strptime(s, "%H:%M").time()\<close>. The format is matched as the regular
  expression \<open>(2[0-3]|[0-1]\d|\d):([0-5]\d|\d)\<close> from the start of \<open>s\<close>; no match, or
  text left over after the match, raises \<open>ValueError\<close>. Where a two-digit alternative
  matches, the expression cannot match with the one-digit alternative instead (the colon
  would face a digit), so the first alternative that matches decides.
\<close>

definition digit_val :: "char \<Rightarrow> nat option" where
  "digit_val c =
     map_of [(CHR ''0'', 0), (CHR ''1'', 1), (CHR ''2'', 2), (CHR ''3'', 3), (CHR ''4'', 4),
             (CHR ''5'', 5), (CHR ''6'', 6), (CHR ''7'', 7), (CHR ''8'', 8), (CHR ''9'', 9)] c"

fun match_H :: "string \<Rightarrow> (nat \<times> string) option" where
  "match_H [] = None"
| "match_H [a] = (case digit_val a of None \<Rightarrow> None | Some x \<Rightarrow> Some (x, []))"
| "match_H (a # b # rest) =
     (case digit_val a of
        None \<Rightarrow> None
      | Some x \<Rightarrow>
          (case digit_val b of
             None \<Rightarrow> Some (x, b # rest)
           | Some y \<Rightarrow>
               if (x = 2 \<and> y \<le> 3) \<or> x \<le> 1 then Some (10 * x + y, rest)
               else Some (x, b # rest)))"

fun match_M :: "string \<Rightarrow> (nat \<times> string) option" where
  "match_M [] = None"
| "match_M [a] = (case digit_val a of None \<Rightarrow> None | Some x \<Rightarrow> Some (x, []))"
| "match_M (a # b # rest) =
     (case digit_val a of
        None \<Rightarrow> None
      | Some x \<Rightarrow>
          (case digit_val b of
             None \<Rightarrow> Some (x, b # rest)
           | Some y \<Rightarrow>
               if x \<le> 5 then Some (10 * x + y, rest) else Some (x, b # rest)))"

definition string_to_time :: "string \<Rightarrow> error + time" where
  "string_to_time s =
     (case match_H s of
        None \<Rightarrow> Inl ValueError
      | Some (h, r) \<Rightarrow>
          (case r of
             [] \<Rightarrow> Inl ValueError
           | c # r' \<Rightarrow>
               if c \<noteq> CHR '':'' then Inl ValueError
               else (case match_M r' of
                       None \<Rightarrow> Inl ValueError
                     | Some (m, left) \<Rightarrow>
                         if left \<noteq> [] then Inl ValueError
                         else Inr \<lparr>hour = h, minute = m, second = 0, microsecond = 0\<rparr>)))"

subsection \<open>Enumerating and ordering schedules\<close>

text \<open>
  \<open>itertools.product(*pools)\<close>, as the library documents it: starting from the one
  empty tuple, every pool extends every partial tuple by each of its elements.
\<close>

definition itertools_product :: "'a list list \<Rightarrow> 'a list list" where
  "itertools_product pools =
     fold (\<lambda>pool result. concat (map (\<lambda>x. map (\<lambda>y. x @ [y]) pool) result)) pools [[]]"

text \<open>The loop that keeps the combinations \<open>is_valid_schedule\<close> accepts.\<close>

definition valid_schedules :: "course_section list list \<Rightarrow> course_section list list" where
  "valid_schedules all_combinations = filter is_valid_schedule all_combinations"

type_synonym info_entry = "string \<times> time \<times> time \<times> string"

text \<open>The key of \<open>schedule_info.sort\<close>: \<open>(get_day_index(x[0]), x[1])\<close>.\<close>

definition sort_key_of :: "info_entry \<Rightarrow> nat \<times> nat \<times> nat \<times> nat \<times> nat" where
  "sort_key_of x = (get_day_index (fst x), time_tuple (fst (snd x)))"

text \<open>
  One displayed schedule: the sections zipped with the course names, then sorted.
  \<open>list.sort\<close> is stable, as \<open>sort_key\<close> is.
\<close>

definition schedule_info :: "string list \<Rightarrow> course_section list \<Rightarrow> info_entry list" where
  "schedule_info course_names schedule =
     sort_key sort_key_of
       (map (\<lambda>(cname, (day, st, et)). (day, st, et, cname)) (zip course_names schedule))"

subsection \<open>The application state\<close>

text \<open>
  What the JSON file holds: for each student id the \<open>courses\<close> dictionary, whose
  sections are triples of strings. \<open>users_data\<close> has the same shape in memory.
\<close>

type_synonym stored_section = "string \<times> string \<times> string"
type_synonym stored_courses = "(string \<times> stored_section list) list"
type_synonym stored_users = "(string \<times> stored_courses) list"

text \<open>
  The file named by \<open>data_file\<close>, as \<open>load_student_data\<close> sees it: absent
  (\<open>os.path.exists\<close> is false), present with text on which \<open>json.load\<close> raises
  \<open>JSONDecodeError\<close>, or present with a students dictionary. A file whose bytes
  cannot be decoded, or whose JSON has another shape, is not among these states.
\<close>

datatype file_state = Missing | Corrupt | Contents stored_users

text \<open>
  What the \<open>try\<close> block of \<open>save_student_data\<close> meets: the dump succeeds, or an
  exception with message \<open>e\<close> is raised, leaving the file in some state \<open>left\<close>
  (as it was when \<open>open\<close> failed, cut short when the dump failed).
\<close>

datatype write_outcome = WriteOk | WriteFails string file_state

text \<open>
  The output box holds what was inserted into it: a plain message, the line
  \<open>Found n valid schedules for student sid.\<close>, or the block of schedule number
  \<open>idx\<close> with its lines in display order.
\<close>

datatype out_item =
    Message string
  | FoundValid nat string
  | ScheduleBlock nat "info_entry list"

record app =
  users_data :: stored_users
  active_student_id :: "string option"
  active_courses :: "(string \<times> course_section list) list"
  current_course_sections :: "course_section list"
  entry_course_name :: string
  current_sections_listbox :: "string list"
  saved_courses_listbox :: "string list"
  output_box :: "out_item list"
  data_file_contents :: file_state

text \<open>The state \<open>__init__\<close> builds, beside a file in state \<open>f\<close>.\<close>

definition init_app :: "file_state \<Rightarrow> app" where
  "init_app f =
     \<lparr>users_data = [], active_student_id = None, active_courses = [],
      current_course_sections = [], entry_course_name = [],
      current_sections_listbox = [], saved_courses_listbox = [], output_box = [],
      data_file_contents = f\<rparr>"

definition output_message :: "string \<Rightarrow> app \<Rightarrow> app" where
  "output_message msg st = st\<lparr>output_box := output_box st @ [Message msg]\<rparr>"

text \<open>\<open>not self.active_student_id\<close> is false for a non-empty string only.\<close>

definition truthy :: "string option \<Rightarrow> bool" where
  "truthy sid = (case sid of None \<Rightarrow> False | Some s \<Rightarrow> s \<noteq> [])"

text \<open>The text of a section in a list box or the output box.\<close>

definition section_label :: "course_section \<Rightarrow> string" where
  "section_label sec =
     (case sec of (day, st, et) \<Rightarrow> day @ '', '' @ time_to_string st @ '' - '' @ time_to_string et)"

text \<open>Tk's \<open>Listbox.get(index)\<close> answers the empty string past the end.\<close>

definition listbox_get :: "string list \<Rightarrow> nat \<Rightarrow> string" where
  "listbox_get items index = (if index < length items then items ! index else [])"

text \<open>Tk's \<open>Listbox.delete(index)\<close> does nothing past the end.\<close>

definition remove_nth :: "nat \<Rightarrow> 'a list \<Rightarrow> 'a list" where
  "remove_nth i xs = take i xs @ drop (Suc i) xs"

subsection \<open>Loading and saving\<close>

fun load_sections :: "stored_section list \<Rightarrow> error + course_section list" where
  "load_sections [] = Inr []"
| "load_sections ((day, start_str, end_str) # rest) =
     (case string_to_time start_str of
        Inl e \<Rightarrow> Inl e
      | Inr start_t \<Rightarrow>
          (case string_to_time end_str of
             Inl e \<Rightarrow> Inl e
           | Inr end_t \<Rightarrow>
               (case load_sections rest of
                  Inl e \<Rightarrow> Inl e
                | Inr time_sections \<Rightarrow> Inr ((day, start_t, end_t) # time_sections))))"

fun load_courses ::
  "stored_courses \<Rightarrow> (string \<times> course_section list) list
     \<Rightarrow> error + (string \<times> course_section list) list" where
  "load_courses [] active = Inr active"
| "load_courses ((cname, sections) # rest) active =
     (case load_sections sections of
        Inl e \<Rightarrow> Inl e
      | Inr time_sections \<Rightarrow> load_courses rest (AList.update cname time_sections active))"

text \<open>
  \<open>load_student_data\<close>; \<open>entry_student_id\<close> is the text of the student id field.
  \<open>Inl\<close> is an exception that leaves the handler.
\<close>

definition load_student_data :: "string \<Rightarrow> app \<Rightarrow> error + app" where
  "load_student_data entry_student_id st =
     (let sid = strip entry_student_id in
      if sid = [] then Inr (output_message ''Please enter a valid Student ID first.'' st)
      else
        let loaded = (case data_file_contents st of
                        Missing \<Rightarrow> users_data st
                      | Corrupt \<Rightarrow> []
                      | Contents d \<Rightarrow> d);
            users = (if map_of loaded sid = None then AList.update sid [] loaded else loaded)
        in case map_of users sid of
             None \<Rightarrow> Inl KeyError
           | Some courses \<Rightarrow>
               (case load_courses courses [] of
                  Inl e \<Rightarrow> Inl e
                | Inr active \<Rightarrow>
                    Inr (output_message (''Loaded data for student ID: '' @ sid)
                          (st\<lparr>users_data := users, active_student_id := Some sid,
                              active_courses := active,
                              saved_courses_listbox := map fst active\<rparr>))))"

fun save_sections :: "course_section list \<Rightarrow> stored_section list" where
  "save_sections [] = []"
| "save_sections ((day, st, et) # rest) =
     (day, time_to_string st, time_to_string et) # save_sections rest"

fun save_courses ::
  "(string \<times> course_section list) list \<Rightarrow> stored_courses \<Rightarrow> stored_courses" where
  "save_courses [] final_dict = final_dict"
| "save_courses ((cname, sections) # rest) final_dict =
     save_courses rest (AList.update cname (save_sections sections) final_dict)"

definition save_student_data :: "bool \<Rightarrow> write_outcome \<Rightarrow> app \<Rightarrow> app" where
  "save_student_data auto w st =
     (case active_student_id st of
        None \<Rightarrow>
          if \<not> auto
          then output_message ''No active student selected. Please enter Student ID and Load.'' st
          else st
      | Some sid \<Rightarrow>
          if sid = [] then
            (if \<not> auto
             then output_message ''No active student selected. Please enter Student ID and Load.'' st
             else st)
          else
            let users = (if map_of (users_data st) sid = None
                         then AList.update sid [] (users_data st) else users_data st);
                final_dict = save_courses (active_courses st) [];
                users' = AList.update sid final_dict users;
                st' = st\<lparr>users_data := users'\<rparr>
            in (case w of
                  WriteOk \<Rightarrow>
                    (let st'' = st'\<lparr>data_file_contents := Contents users'\<rparr>
                     in (if \<not> auto
                         then output_message
                                (''Data saved for student ID '' @ [CHR 0x27] @ sid @ [CHR 0x27] @ ''.'')
                                st''
                         else st''))
                | WriteFails e left \<Rightarrow>
                    (let st'' = st'\<lparr>data_file_contents := left\<rparr>
                     in (if \<not> auto then output_message (''Error saving data: '' @ e) st''
                         else st''))))"

text \<open>One tick of \<open>auto_save\<close>; the timer that calls it again is not part of the state.\<close>

definition auto_save :: "write_outcome \<Rightarrow> app \<Rightarrow> app" where
  "auto_save w st = (if truthy (active_student_id st) then save_student_data True w st else st)"

subsection \<open>Editing sections and courses\<close>

text \<open>
  \<open>add_section\<close>; the arguments are the values of the day picker and the spin
  boxes. The handler catches \<open>ValueError\<close> only: any other exception of the
  \<open>time\<close> constructor leaves it.
\<close>

definition add_section ::
  "string \<Rightarrow> int \<Rightarrow> int \<Rightarrow> int \<Rightarrow> int \<Rightarrow> app \<Rightarrow> error + app" where
  "add_section day_var start_h start_m end_h end_m st =
     (let day = capitalize day_var in
      case mk_time start_h start_m of
        Inl e \<Rightarrow>
          (if e = ValueError then Inr (output_message ''Invalid time values.'' st) else Inl e)
      | Inr start_time \<Rightarrow>
          (case mk_time end_h end_m of
             Inl e \<Rightarrow>
               (if e = ValueError then Inr (output_message ''Invalid time values.'' st)
                else Inl e)
           | Inr end_time \<Rightarrow>
               if time_tuple end_time \<le> time_tuple start_time
               then Inr (output_message ''End time must be after start time.'' st)
               else Inr (st\<lparr>current_course_sections :=
                               current_course_sections st @ [(day, start_time, end_time)],
                             current_sections_listbox :=
                               current_sections_listbox st
                                 @ [section_label (day, start_time, end_time)]\<rparr>)))"

text \<open>\<open>delete_section\<close>; \<open>selection\<close> is the first selected index, if any.\<close>

definition delete_section :: "nat option \<Rightarrow> app \<Rightarrow> error + app" where
  "delete_section selection st =
     (case selection of
        None \<Rightarrow> Inr (output_message ''No section selected.'' st)
      | Some index_to_remove \<Rightarrow>
          if index_to_remove < length (current_course_sections st)
          then Inr (output_message ''Deleted selected section.''
                 (st\<lparr>current_sections_listbox :=
                       remove_nth index_to_remove (current_sections_listbox st),
                     current_course_sections :=
                       remove_nth index_to_remove (current_course_sections st)\<rparr>))
          else Inl IndexError)"

definition save_course :: "app \<Rightarrow> app" where
  "save_course st =
     (if \<not> truthy (active_student_id st)
      then output_message ''No active student. Please load a student first.'' st
      else
        let course_name = strip (entry_course_name st) in
        if course_name = [] then output_message ''Please enter a Course Name.'' st
        else if current_course_sections st = []
        then output_message ''No sections for this course.'' st
        else
          let active = AList.update course_name (current_course_sections st) (active_courses st)
          in output_message
               (''Course '' @ [CHR 0x27] @ course_name @ [CHR 0x27] @ '' saved/updated for student ''
                  @ the (active_student_id st) @ ''.'')
               (st\<lparr>active_courses := active, entry_course_name := [],
                   current_sections_listbox := [], current_course_sections := [],
                   saved_courses_listbox := map fst active\<rparr>))"

text \<open>\<open>edit_course\<close>; \<open>del\<close> of a name that is not a key raises \<open>KeyError\<close>.\<close>

definition edit_course :: "nat option \<Rightarrow> app \<Rightarrow> error + app" where
  "edit_course selection st =
     (case selection of
        None \<Rightarrow> Inr (output_message ''No course selected to edit.'' st)
      | Some index \<Rightarrow>
          let course_name = listbox_get (saved_courses_listbox st) index;
              sections = (case map_of (active_courses st) course_name of
                            None \<Rightarrow> [] | Some secs \<Rightarrow> secs)
          in if map_of (active_courses st) course_name = None then Inl KeyError
             else
               let active = AList.delete course_name (active_courses st)
               in Inr (output_message
                        (''Course '' @ [CHR 0x27] @ course_name @ [CHR 0x27]
                           @ '' loaded for editing. Make changes and click ''
                           @ [CHR 0x27] @ ''Save/Update Course'' @ [CHR 0x27] @ ''.'')
                        (st\<lparr>entry_course_name := course_name,
                            current_course_sections := sections,
                            current_sections_listbox := map section_label sections,
                            active_courses := active,
                            saved_courses_listbox := map fst active\<rparr>)))"

definition delete_course :: "nat option \<Rightarrow> app \<Rightarrow> app" where
  "delete_course selection st =
     (case selection of
        None \<Rightarrow> output_message ''No course selected to delete.'' st
      | Some index_to_remove \<Rightarrow>
          let course_name = listbox_get (saved_courses_listbox st) index_to_remove;
              active = (if map_of (active_courses st) course_name \<noteq> None
                        then AList.delete course_name (active_courses st)
                        else active_courses st)
          in output_message (''Course '' @ [CHR 0x27] @ course_name @ [CHR 0x27] @ '' deleted.'')
               (st\<lparr>active_courses := active, saved_courses_listbox := map fst active\<rparr>))"

subsection \<open>Generating schedules\<close>

definition generate_schedules :: "app \<Rightarrow> app" where
  "generate_schedules st =
     (if \<not> truthy (active_student_id st)
      then output_message ''No active student. Please load a student first.'' st
      else if active_courses st = []
      then output_message (''No courses found for student '' @ the (active_student_id st) @ ''.'') st
      else
        let course_names = map fst (active_courses st) in
        case those (map (map_of (active_courses st)) course_names) of
          None \<Rightarrow> output_message ''Error generating schedules. Check your courses data.'' st
        | Some pools \<Rightarrow>
            let all_combinations = itertools_product pools;
                valid = valid_schedules all_combinations
            in st\<lparr>output_box :=
                    FoundValid (length valid) (the (active_student_id st))
                    # map (\<lambda>(idx, schedule). ScheduleBlock idx (schedule_info course_names schedule))
                        (zip [1 ..< Suc (length valid)] valid)\<rparr>)"

subsection \<open>Example catalogs\<close>


text \<open>One course without sections beside a course with one section.\<close>

definition scenario_c :: app where
  "scenario_c =
     (init_app Missing)
       \<lparr>active_student_id := Some ''s1'',
        active_courses := [(''Empty'', []), (''Math'', [(''Mon'', clock 8 0, clock 9 0)])]\<rparr>"

text \<open>Algorithms meets Tuesday 14:00 to 15:20; student \<open>s1\<close> is active.\<close>

definition scenario_d :: app where
  "scenario_d =
     (init_app Missing)
       \<lparr>active_student_id := Some ''s1'',
        active_courses := [(''Algo'', [(''Tue'', clock 14 0, clock 15 20)])]\<rparr>"

text \<open>
  A session in a directory without a store file: student \<open>s1\<close> is loaded, the course
  Algo gets one section and is saved, and the explicit save of the student's data fails at
  \<open>open\<close>, so that the file is still missing afterwards.
\<close>

definition session_failed_save :: app where
  "session_failed_save =
     save_student_data False (WriteFails ''Permission denied'' Missing)
       (save_course
         ((projr (add_section ''tuesday'' 14 0 15 20
                    (projr (load_student_data ''s1'' (init_app Missing)))))
            \<lparr>entry_course_name := ''Algo''\<rparr>))"

subsection \<open>Predicates on sections\<close>

text \<open>Both times of a section are clock values with zero seconds and microseconds.\<close>

definition minute_times :: "course_section \<Rightarrow> bool" where
  "minute_times sec \<longleftrightarrow>
     (case sec of (day, st, et) \<Rightarrow>
        valid_time st \<and> minute_resolution st \<and> valid_time et \<and> minute_resolution et)"

text \<open>The start of a section is before its end.\<close>

definition start_before_end :: "course_section \<Rightarrow> bool" where
  "start_before_end sec \<longleftrightarrow> (case sec of (day, st, et) \<Rightarrow> time_tuple st < time_tuple et)"

text \<open>Every section of the pending list and of the active catalog starts before it ends.\<close>

definition sections_ordered :: "app \<Rightarrow> bool" where
  "sections_ordered st \<longleftrightarrow>
     list_all start_before_end (current_course_sections st)
     \<and> list_all (\<lambda>(cname, secs). list_all start_before_end secs) (active_courses st)"

text \<open>A store file in which the one section of Math ends before it starts.\<close>

definition reversed_store :: file_state where
  "reversed_store = Contents [(''s1'', [(''Math'', [(''Monday'', ''10:00'', ''09:00'')])])]"




subsection \<open>Handlers run one after another\<close>




section \<open>Properties\<close>

subsection \<open>The validator checks every pair\<close>

lemma overlap_swap: "times_overlap a b = times_overlap b a"
  by (cases a; cases b) auto

lemma loop_j_iff:
  "loop_j s i j \<longleftrightarrow> (\<forall>k. j \<le> k \<and> k < length s \<longrightarrow> \<not> times_overlap (s ! i) (s ! k))"
proof (induction s i j rule: loop_j.induct)
  case (1 s i j)
  show ?case
  proof (cases "j < length s")
    case False
    then have "loop_j s i j" by (simp add: loop_j.simps)
    with False show ?thesis by auto
  next
    case True
    show ?thesis
    proof (cases "times_overlap (s ! i) (s ! j)")
      case ov: True
      with True have "\<not> loop_j s i j" by (simp add: loop_j.simps)
      with True ov show ?thesis by auto
    next
      case False
      with True have "loop_j s i j = loop_j s i (Suc j)" by (simp add: loop_j.simps)
      also from True False 1
      have "\<dots> \<longleftrightarrow> (\<forall>k. Suc j \<le> k \<and> k < length s \<longrightarrow> \<not> times_overlap (s ! i) (s ! k))"
        by simp
      also have "\<dots> \<longleftrightarrow> (\<forall>k. j \<le> k \<and> k < length s \<longrightarrow> \<not> times_overlap (s ! i) (s ! k))"
      proof (intro iffI allI impI)
        fix k
        assume h: "\<forall>k. Suc j \<le> k \<and> k < length s \<longrightarrow> \<not> times_overlap (s ! i) (s ! k)"
          and k: "j \<le> k \<and> k < length s"
        show "\<not> times_overlap (s ! i) (s ! k)"
        proof (cases "k = j")
          case True
          with False show ?thesis by simp
        next
          case False
          with k have "Suc j \<le> k \<and> k < length s" by auto
          with h show ?thesis by blast
        qed
      next
        fix k
        assume h: "\<forall>k. j \<le> k \<and> k < length s \<longrightarrow> \<not> times_overlap (s ! i) (s ! k)"
          and k: "Suc j \<le> k \<and> k < length s"
        then have "j \<le> k \<and> k < length s" by auto
        with h show "\<not> times_overlap (s ! i) (s ! k)" by blast
      qed
      finally show ?thesis .
    qed
  qed
qed

lemma loop_i_iff:
  "loop_i s i \<longleftrightarrow>
     (\<forall>a b. i \<le> a \<and> a < b \<and> b < length s \<longrightarrow> \<not> times_overlap (s ! a) (s ! b))"
proof (induction s i rule: loop_i.induct)
  case (1 s i)
  show ?case
  proof (cases "i < length s")
    case False
    then have "loop_i s i" by (simp add: loop_i.simps)
    with False show ?thesis by auto
  next
    case True
    show ?thesis
    proof (cases "loop_j s i (Suc i)")
      case False
      then obtain k where k: "Suc i \<le> k" "k < length s" "times_overlap (s ! i) (s ! k)"
        unfolding loop_j_iff by blast
      then have "i \<le> i \<and> i < k \<and> k < length s" by auto
      with k(3)
      have "\<not> (\<forall>a b. i \<le> a \<and> a < b \<and> b < length s \<longrightarrow> \<not> times_overlap (s ! a) (s ! b))"
        by blast
      moreover from False True have "\<not> loop_i s i" by (simp add: loop_i.simps)
      ultimately show ?thesis by simp
    next
      case lj: True
      with True have "loop_i s i = loop_i s (Suc i)" by (simp add: loop_i.simps)
      also from True lj 1
      have "\<dots> \<longleftrightarrow>
        (\<forall>a b. Suc i \<le> a \<and> a < b \<and> b < length s \<longrightarrow> \<not> times_overlap (s ! a) (s ! b))"
        by simp
      also have "\<dots> \<longleftrightarrow>
        (\<forall>a b. i \<le> a \<and> a < b \<and> b < length s \<longrightarrow> \<not> times_overlap (s ! a) (s ! b))"
      proof (intro iffI allI impI)
        fix a b
        assume h: "\<forall>a b. Suc i \<le> a \<and> a < b \<and> b < length s
                      \<longrightarrow> \<not> times_overlap (s ! a) (s ! b)"
          and ab: "i \<le> a \<and> a < b \<and> b < length s"
        show "\<not> times_overlap (s ! a) (s ! b)"
        proof (cases "a = i")
          case True
          with ab have "Suc i \<le> b \<and> b < length s" by auto
          with lj True show ?thesis unfolding loop_j_iff by blast
        next
          case False
          with ab have "Suc i \<le> a \<and> a < b \<and> b < length s" by auto
          with h show ?thesis by blast
        qed
      next
        fix a b
        assume h: "\<forall>a b. i \<le> a \<and> a < b \<and> b < length s \<longrightarrow> \<not> times_overlap (s ! a) (s ! b)"
          and ab: "Suc i \<le> a \<and> a < b \<and> b < length s"
        then have "i \<le> a \<and> a < b \<and> b < length s" by auto
        with h show "\<not> times_overlap (s ! a) (s ! b)" by blast
      qed
      finally show ?thesis .
    qed
  qed
qed

lemma is_valid_schedule_ordered_pairs:
  "is_valid_schedule s \<longleftrightarrow>
     (\<forall>a b. a < b \<and> b < length s \<longrightarrow> \<not> times_overlap (s ! a) (s ! b))"
  by (simp add: is_valid_schedule_def loop_i_iff)

text \<open>
  C1. \<open>is_valid_schedule\<close> answers true exactly when no two sections at distinct
  positions of the schedule overlap under \<open>times_overlap\<close>.
\<close>

theorem is_valid_schedule_iff_no_overlap:
  "is_valid_schedule s \<longleftrightarrow>
     (\<forall>i j. i < length s \<and> j < length s \<and> i \<noteq> j \<longrightarrow> \<not> times_overlap (s ! i) (s ! j))"
proof -
  have "(\<forall>a b. a < b \<and> b < length s \<longrightarrow> \<not> times_overlap (s ! a) (s ! b)) \<longleftrightarrow>
    (\<forall>i j. i < length s \<and> j < length s \<and> i \<noteq> j \<longrightarrow> \<not> times_overlap (s ! i) (s ! j))"
  proof
    assume h: "\<forall>a b. a < b \<and> b < length s \<longrightarrow> \<not> times_overlap (s ! a) (s ! b)"
    show "\<forall>i j. i < length s \<and> j < length s \<and> i \<noteq> j \<longrightarrow> \<not> times_overlap (s ! i) (s ! j)"
    proof (intro allI impI)
      fix i j
      assume ij: "i < length s \<and> j < length s \<and> i \<noteq> j"
      then consider "i < j" | "j < i" by linarith
      then show "\<not> times_overlap (s ! i) (s ! j)"
      proof cases
        case 1
        with h ij show ?thesis by blast
      next
        case 2
        with h ij have "\<not> times_overlap (s ! j) (s ! i)" by blast
        then show ?thesis by (simp add: overlap_swap)
      qed
    qed
  next
    assume h: "\<forall>i j. i < length s \<and> j < length s \<and> i \<noteq> j \<longrightarrow> \<not> times_overlap (s ! i) (s ! j)"
    show "\<forall>a b. a < b \<and> b < length s \<longrightarrow> \<not> times_overlap (s ! a) (s ! b)"
    proof (intro allI impI)
      fix a b
      assume "a < b \<and> b < length s"
      then have "a < length s \<and> b < length s \<and> a \<noteq> b" by auto
      with h show "\<not> times_overlap (s ! a) (s ! b)" by blast
    qed
  qed
  then show ?thesis by (simp add: is_valid_schedule_ordered_pairs)
qed

theorem is_valid_schedule_iff_no_overlap_witness:
  "is_valid_schedule [(''Mon'', clock 8 0, clock 9 0), (''mon'', clock 9 0, clock 10 0)]
   \<and> \<not> times_overlap (''Mon'', clock 8 0, clock 9 0) (''mon'', clock 9 0, clock 10 0)
   \<and> \<not> times_overlap (''mon'', clock 9 0, clock 10 0) (''Mon'', clock 8 0, clock 9 0)"
proof -
  let ?s = "[(''Mon'', clock 8 0, clock 9 0), (''mon'', clock 9 0, clock 10 0)]"
  have v: "is_valid_schedule ?s"
    by (simp add: is_valid_schedule_def loop_i.simps loop_j.simps lower_def char_lower_def
        clock_def time_tuple_def)
  with is_valid_schedule_iff_no_overlap [of ?s]
  have h: "\<forall>i j. i < length ?s \<and> j < length ?s \<and> i \<noteq> j \<longrightarrow> \<not> times_overlap (?s ! i) (?s ! j)"
    by blast
  from h [rule_format, of 0 1] h [rule_format, of 1 0] v show ?thesis by simp
qed

subsection \<open>The overlap test\<close>

lemma lt_minutes:
  "minute a < 60 \<Longrightarrow> minute b < 60 \<Longrightarrow> minute_resolution a \<Longrightarrow> minute_resolution b \<Longrightarrow>
   time_tuple a < time_tuple b \<longleftrightarrow> minutes_of a < minutes_of b"
  by (auto simp: time_tuple_def minutes_of_def minute_resolution_def)

lemma le_minutes:
  "minute a < 60 \<Longrightarrow> minute b < 60 \<Longrightarrow> minute_resolution a \<Longrightarrow> minute_resolution b \<Longrightarrow>
   time_tuple a \<le> time_tuple b \<longleftrightarrow> minutes_of a \<le> minutes_of b"
  by (auto simp: time_tuple_def minutes_of_def minute_resolution_def)

lemma clock_facts:
  "valid_time (clock 9 0)" "valid_time (clock 10 0)" "valid_time (clock 9 59)"
  "minute_resolution (clock h m)"
  "time_tuple (clock 9 0) < time_tuple (clock 10 0)"
  "time_tuple (clock 9 59) < time_tuple (clock 10 30)"
  "minutes_of (clock 9 59) + 1 = minutes_of (clock 10 0)"
  by (simp_all add: clock_def valid_time_def minute_resolution_def time_tuple_def minutes_of_def)

lemma lower_Mon: "lower ''Mon'' = lower ''mon''" "lower ''Mon'' \<noteq> lower ''Tue''"
  by (simp_all add: lower_def char_lower_def)

text \<open>
  C2. \<open>times_overlap\<close> is false when the day strings differ after \<open>lower\<close>, and
  otherwise is the half-open test \<open>start1 < end2 \<and> start2 < end1\<close>. Sections where
  one ends when the other starts do not overlap. For sections with \<open>start < end\<close> and
  minute-resolution times on the same day, one that starts a minute before the other ends
  overlaps it.
\<close>

theorem times_overlap_half_open:
  "(lower day1 \<noteq> lower day2 \<longrightarrow> \<not> times_overlap (day1, start1, end1) (day2, start2, end2))
   \<and> (lower day1 = lower day2 \<longrightarrow>
        times_overlap (day1, start1, end1) (day2, start2, end2)
          = (time_tuple start1 < time_tuple end2 \<and> time_tuple start2 < time_tuple end1))
   \<and> (time_tuple end1 = time_tuple start2 \<or> time_tuple end2 = time_tuple start1 \<longrightarrow>
        \<not> times_overlap (day1, start1, end1) (day2, start2, end2))
   \<and> (lower day1 = lower day2
        \<and> valid_time start1 \<and> valid_time end1 \<and> valid_time start2
        \<and> minute_resolution start1 \<and> minute_resolution end1 \<and> minute_resolution start2
        \<and> time_tuple start1 < time_tuple end1 \<and> time_tuple start2 < time_tuple end2
        \<and> minutes_of start2 + 1 = minutes_of end1 \<longrightarrow>
        times_overlap (day1, start1, end1) (day2, start2, end2))"
proof (intro conjI impI)
  assume h: "lower day1 = lower day2
        \<and> valid_time start1 \<and> valid_time end1 \<and> valid_time start2
        \<and> minute_resolution start1 \<and> minute_resolution end1 \<and> minute_resolution start2
        \<and> time_tuple start1 < time_tuple end1 \<and> time_tuple start2 < time_tuple end2
        \<and> minutes_of start2 + 1 = minutes_of end1"
  then have "minutes_of start1 < minutes_of end1"
    using lt_minutes [of start1 end1] by (simp add: valid_time_def)
  with h have "minutes_of start1 \<le> minutes_of start2" by linarith
  with h have "time_tuple start1 \<le> time_tuple start2"
    using le_minutes [of start1 start2] by (simp add: valid_time_def)
  with h have a: "time_tuple start1 < time_tuple end2" by (meson le_less_trans)
  from h have "minutes_of start2 < minutes_of end1" by linarith
  with h have "time_tuple start2 < time_tuple end1"
    using lt_minutes [of start2 end1] by (simp add: valid_time_def)
  with a h show "times_overlap (day1, start1, end1) (day2, start2, end2)" by simp
qed auto

theorem times_overlap_half_open_witness:
  "lower ''Mon'' \<noteq> lower ''Tue''
   \<and> \<not> times_overlap (''Mon'', clock 9 0, clock 10 0) (''Tue'', clock 9 0, clock 10 0)
   \<and> lower ''Mon'' = lower ''mon''
   \<and> \<not> times_overlap (''Mon'', clock 9 0, clock 10 0) (''mon'', clock 10 0, clock 11 0)
   \<and> minutes_of (clock 9 59) + 1 = minutes_of (clock 10 0)
   \<and> times_overlap (''Mon'', clock 9 0, clock 10 0) (''mon'', clock 9 59, clock 10 30)"
proof -
  have a: "\<not> times_overlap (''Mon'', clock 9 0, clock 10 0) (''Tue'', clock 9 0, clock 10 0)"
    using times_overlap_half_open
      [of "''Mon''" "''Tue''" "clock 9 0" "clock 10 0" "clock 9 0" "clock 10 0"] lower_Mon(2)
    by blast
  have b: "\<not> times_overlap (''Mon'', clock 9 0, clock 10 0) (''mon'', clock 10 0, clock 11 0)"
    using times_overlap_half_open
      [of "''Mon''" "''mon''" "clock 9 0" "clock 10 0" "clock 10 0" "clock 11 0"]
    by blast
  have c: "times_overlap (''Mon'', clock 9 0, clock 10 0) (''mon'', clock 9 59, clock 10 30)"
    using times_overlap_half_open
      [of "''Mon''" "''mon''" "clock 9 0" "clock 10 0" "clock 9 59" "clock 10 30"]
      lower_Mon(1) clock_facts
    by blast
  from a b c lower_Mon clock_facts(7) show ?thesis by blast
qed

text \<open>C3. \<open>times_overlap\<close> is symmetric, for all day strings and all times.\<close>

theorem times_overlap_symmetric: "times_overlap a b = times_overlap b a"
  by (rule overlap_swap)

subsection \<open>Enumeration\<close>

lemma fold_product_length:
  "length (fold (\<lambda>pool result. concat (map (\<lambda>x. map (\<lambda>y. x @ [y]) pool) result)) pools acc)
     = length acc * prod_list (map length pools)"
proof (induction pools arbitrary: acc)
  case Nil
  then show ?case by simp
next
  case (Cons pool pools)
  have "length (concat (map (\<lambda>x. map (\<lambda>y. x @ [y]) pool) acc)) = length acc * length pool"
    by (induction acc) (simp_all add: length_concat)
  with Cons show ?case by (simp add: mult.assoc)
qed

lemma length_itertools_product:
  "length (itertools_product pools) = prod_list (map length pools)"
  by (simp add: itertools_product_def fold_product_length)

lemma prod_list_zero: "(0::nat) \<in> set ns \<Longrightarrow> prod_list ns = 0"
  by (induction ns) auto

lemma itertools_product_empty_pool:
  "[] \<in> set pools \<Longrightarrow> itertools_product pools = []"
proof -
  assume "[] \<in> set pools"
  then have "0 \<in> set (map length pools)" by force
  then have "prod_list (map length pools) = 0" by (rule prod_list_zero)
  then show ?thesis using length_itertools_product [of pools] by simp
qed

lemma fold_product_set:
  "set (fold (\<lambda>pool result. concat (map (\<lambda>x. map (\<lambda>y. x @ [y]) pool) result)) pools acc)
     = {a @ c | a c. a \<in> set acc \<and> length c = length pools \<and> (\<forall>i < length pools. c ! i \<in> set (pools ! i))}"
proof (induction pools arbitrary: acc)
  case Nil
  then show ?case by auto
next
  case (Cons pool pools)
  have s: "set (concat (map (\<lambda>x. map (\<lambda>y. x @ [y]) pool) acc)) = {a @ [y] | a y. a \<in> set acc \<and> y \<in> set pool}"
    by auto
  show ?case
  proof (rule set_eqI, rule iffI)
    fix z assume "z \<in> set (fold (\<lambda>pool result. concat (map (\<lambda>x. map (\<lambda>y. x @ [y]) pool) result)) (pool # pools) acc)"
    then obtain a y c where a: "a \<in> set acc" "y \<in> set pool" "length c = length pools"
       "\<forall>i < length pools. c ! i \<in> set (pools ! i)" "z = (a @ [y]) @ c"
      using Cons [of "concat (map (\<lambda>x. map (\<lambda>y. x @ [y]) pool) acc)"] s by auto
    have "\<forall>i < length (pool # pools). (y # c) ! i \<in> set ((pool # pools) ! i)"
    proof (intro allI impI)
      fix i assume "i < length (pool # pools)"
      then show "(y # c) ! i \<in> set ((pool # pools) ! i)" using a by (cases i) auto
    qed
    with a have "z = a @ (y # c) \<and> a \<in> set acc \<and> length (y # c) = length (pool # pools) \<and> (\<forall>i < length (pool # pools). (y # c) ! i \<in> set ((pool # pools) ! i))"
      by simp
    then show "z \<in> {a @ c | a c. a \<in> set acc \<and> length c = length (pool # pools) \<and> (\<forall>i < length (pool # pools). c ! i \<in> set ((pool # pools) ! i))}"
      by blast
  next
    fix z assume "z \<in> {a @ c | a c. a \<in> set acc \<and> length c = length (pool # pools) \<and> (\<forall>i < length (pool # pools). c ! i \<in> set ((pool # pools) ! i))}"
    then obtain a c where a: "z = a @ c" "a \<in> set acc" "length c = length (pool # pools)" "\<forall>i < length (pool # pools). c ! i \<in> set ((pool # pools) ! i)"
      by blast
    then obtain y c' where c: "c = y # c'" by (cases c) auto
    with a have y: "y \<in> set pool" by auto
    from a c have c': "length c' = length pools" "\<forall>i < length pools. c' ! i \<in> set (pools ! i)" by auto
    from a y have "a @ [y] \<in> set (concat (map (\<lambda>x. map (\<lambda>y. x @ [y]) pool) acc))" using s by blast
    with c' have "(a @ [y]) @ c' \<in> set (fold (\<lambda>pool result. concat (map (\<lambda>x. map (\<lambda>y. x @ [y]) pool) result)) pools (concat (map (\<lambda>x. map (\<lambda>y. x @ [y]) pool) acc)))"
      using Cons [of "concat (map (\<lambda>x. map (\<lambda>y. x @ [y]) pool) acc)"] by blast
    with a c show "z \<in> set (fold (\<lambda>pool result. concat (map (\<lambda>x. map (\<lambda>y. x @ [y]) pool) result)) (pool # pools) acc)"
      by simp
  qed
qed

lemma set_itertools_product:
  "set (itertools_product pools) = {c. length c = length pools \<and> (\<forall>i < length pools. c ! i \<in> set (pools ! i))}"
  using fold_product_set [of pools "[[]]"] by (simp add: itertools_product_def)

lemma those_map_Some:
  "(\<And>x. x \<in> set ys \<Longrightarrow> f x = Some (g x)) \<Longrightarrow> those (map f ys) = Some (map g ys)"
  by (induction ys) simp_all

lemma those_map_of_distinct:
  assumes "distinct (map fst xs)"
  shows "those (map (map_of xs) (map fst xs)) = Some (map snd xs)"
proof -
  have "\<And>p. p \<in> set xs \<Longrightarrow> (map_of xs \<circ> fst) p = Some (snd p)"
    using assms by (simp add: map_of_eq_Some_iff)
  then have "those (map (map_of xs \<circ> fst) xs) = Some (map snd xs)"
    by (rule those_map_Some)
  then show ?thesis by (simp add: comp_def)
qed




text \<open>
  C4. The enumerator yields exactly the tuples of the cartesian product of the pools, as
  many as the product of the pool sizes; one empty pool empties it, so no schedule, valid
  or not, is produced, and \<open>generate_schedules\<close> reports zero schedules for a
  catalog in which some course has no sections.
\<close>

theorem generate_schedules_empty_course:
  "set (itertools_product pools)
     = {c. length c = length pools \<and> (\<forall>i < length pools. c ! i \<in> set (pools ! i))}
   \<and> length (itertools_product pools) = prod_list (map length pools)
   \<and> ([] \<in> set pools \<longrightarrow>
        itertools_product pools = [] \<and> valid_schedules (itertools_product pools) = [])
   \<and> (active_student_id st = Some sid \<and> sid \<noteq> [] \<and> distinct (map fst (active_courses st))
        \<and> (cname, []) \<in> set (active_courses st) \<longrightarrow>
        output_box (generate_schedules st) = [FoundValid 0 sid])"
proof (intro conjI impI)
  show "set (itertools_product pools)
     = {c. length c = length pools \<and> (\<forall>i < length pools. c ! i \<in> set (pools ! i))}"
    by (rule set_itertools_product)
  show "length (itertools_product pools) = prod_list (map length pools)"
    by (rule length_itertools_product)
  show "itertools_product pools = []" if "[] \<in> set pools"
    using that by (rule itertools_product_empty_pool)
  show "valid_schedules (itertools_product pools) = []" if "[] \<in> set pools"
    using that by (simp add: itertools_product_empty_pool valid_schedules_def)
  assume h: "active_student_id st = Some sid \<and> sid \<noteq> [] \<and> distinct (map fst (active_courses st))
        \<and> (cname, []) \<in> set (active_courses st)"
  then have t: "truthy (active_student_id st)" and ne: "active_courses st \<noteq> []"
    by (auto simp: truthy_def)
  from h have p: "those (map (map_of (active_courses st)) (map fst (active_courses st)))
      = Some (map snd (active_courses st))"
    by (intro those_map_of_distinct) simp
  from h have "[] \<in> set (map snd (active_courses st))" by force
  then have e: "itertools_product (map snd (active_courses st)) = []"
    by (rule itertools_product_empty_pool)
  from t ne p e h show "output_box (generate_schedules st) = [FoundValid 0 sid]"
    by (simp add: generate_schedules_def valid_schedules_def)
qed

theorem generate_schedules_empty_course_witness:
  "(''Empty'', []) \<in> set (active_courses scenario_c)
   \<and> itertools_product (map snd (active_courses scenario_c)) = []
   \<and> output_box (generate_schedules scenario_c) = [FoundValid 0 ''s1'']"
proof -
  have a: "active_student_id scenario_c = Some ''s1''" "''s1'' \<noteq> []"
    "distinct (map fst (active_courses scenario_c))"
    "(''Empty'', []) \<in> set (active_courses scenario_c)"
    "[] \<in> set (map snd (active_courses scenario_c))"
    by (simp_all add: scenario_c_def init_app_def)
  with generate_schedules_empty_course [of "map snd (active_courses scenario_c)" scenario_c "''s1''" "''Empty''"]
  show ?thesis by blast
qed

subsection \<open>Display order\<close>





subsection \<open>Persistence round trip\<close>

lemma digit_val_digit_char: "n < 10 \<Longrightarrow> digit_val (digit_char n) = Some n"
proof -
  assume "n < 10"
  then have "n = 0 \<or> n = 1 \<or> n = 2 \<or> n = 3 \<or> n = 4 \<or> n = 5 \<or> n = 6 \<or> n = 7
    \<or> n = 8 \<or> n = 9" by arith
  then show ?thesis by (elim disjE) (simp_all add: digit_val_def digit_char_def)
qed

lemma match_H_two_digits:
  assumes "h < 24"
  shows "match_H (two_digits h @ rest) = Some (h, rest)"
proof -
  from assms have a: "h div 10 < 10" "h mod 10 < 10" by simp_all
  from assms have b: "(h div 10 = 2 \<and> h mod 10 \<le> 3) \<or> h div 10 \<le> 1" by presburger
  have c: "10 * (h div 10) + h mod 10 = h" by simp
  from a b c show ?thesis
    by (simp add: two_digits_def digit_val_digit_char)
qed

lemma match_M_two_digits:
  assumes "m < 60"
  shows "match_M (two_digits m) = Some (m, [])"
proof -
  from assms have a: "m div 10 < 10" "m mod 10 < 10" by simp_all
  from assms have b: "m div 10 \<le> 5" by presburger
  have c: "10 * (m div 10) + m mod 10 = m" by simp
  from a b c show ?thesis
    by (simp add: two_digits_def digit_val_digit_char)
qed

lemma string_to_time_to_string:
  assumes "valid_time t" "minute_resolution t"
  shows "string_to_time (time_to_string t) = Inr t"
proof -
  from assms have h: "hour t < 24" and m: "minute t < 60" by (simp_all add: valid_time_def)
  have "match_H (time_to_string t) = Some (hour t, CHR '':'' # two_digits (minute t))"
    using match_H_two_digits [OF h, of "CHR '':'' # two_digits (minute t)"]
    by (simp add: time_to_string_def)
  with match_M_two_digits [OF m] assms(2) show ?thesis
    by (simp add: string_to_time_def minute_resolution_def)
qed

lemma load_save_sections:
  "\<forall>sec \<in> set secs. minute_times sec \<Longrightarrow> load_sections (save_sections secs) = Inr secs"
proof (induction secs)
  case Nil then show ?case by simp
next
  case (Cons sec secs)
  obtain day st et where s: "sec = (day, st, et)" by (cases sec)
  with Cons show ?case by (simp add: minute_times_def string_to_time_to_string)
qed

lemma update_fresh: "k \<notin> fst ` set xs \<Longrightarrow> AList.update k v xs = xs @ [(k, v)]"
  by (induction xs) auto

lemma save_courses_distinct:
  "distinct (map fst cat) \<Longrightarrow> fst ` set cat \<inter> fst ` set acc = {} \<Longrightarrow>
   save_courses cat acc = acc @ map (\<lambda>(c, secs). (c, save_sections secs)) cat"
proof (induction cat arbitrary: acc)
  case Nil then show ?case by simp
next
  case (Cons p cat)
  obtain c secs where p: "p = (c, secs)" by (cases p)
  with Cons.prems have fresh: "c \<notin> fst ` set acc" by auto
  from Cons.prems p have d: "distinct (map fst cat)" and
    dj: "fst ` set cat \<inter> fst ` set (acc @ [(c, save_sections secs)]) = {}"
    by auto
  from fresh have "save_courses (p # cat) acc = save_courses cat (acc @ [(c, save_sections secs)])"
    by (simp add: p update_fresh)
  also from Cons.IH [OF d dj] have "\<dots> = (acc @ [(c, save_sections secs)]) @ map (\<lambda>(c, secs). (c, save_sections secs)) cat" .
  finally show ?case by (simp add: p)
qed

lemma load_courses_distinct:
  "distinct (map fst cat) \<Longrightarrow> fst ` set cat \<inter> fst ` set acc = {} \<Longrightarrow>
   \<forall>(c, secs) \<in> set cat. \<forall>sec \<in> set secs. minute_times sec \<Longrightarrow>
   load_courses (map (\<lambda>(c, secs). (c, save_sections secs)) cat) acc = Inr (acc @ cat)"
proof (induction cat arbitrary: acc)
  case Nil then show ?case by simp
next
  case (Cons p cat)
  obtain c secs where p: "p = (c, secs)" by (cases p)
  with Cons.prems have fresh: "c \<notin> fst ` set acc" by auto
  from Cons.prems p have d: "distinct (map fst cat)" and
    dj: "fst ` set cat \<inter> fst ` set (acc @ [(c, secs)]) = {}"
    and ok: "\<forall>(c, secs) \<in> set cat. \<forall>sec \<in> set secs. minute_times sec"
    and ok1: "\<forall>sec \<in> set secs. minute_times sec"
    by auto
  from fresh ok1 have "load_courses (map (\<lambda>(c, secs). (c, save_sections secs)) (p # cat)) acc
     = load_courses (map (\<lambda>(c, secs). (c, save_sections secs)) cat) (acc @ [(c, secs)])"
    by (simp add: p update_fresh load_save_sections)
  also from Cons.IH [OF d dj ok] have "\<dots> = Inr ((acc @ [(c, secs)]) @ cat)" .
  finally show ?case by (simp add: p)
qed

lemma map_of_update_same: "map_of (AList.update k v xs) k = Some v"
  by (simp add: update_conv')

lemma load_after_save:
  assumes sid: "active_student_id st = Some sid" "sid \<noteq> []" "strip entry = sid"
    and d: "distinct (map fst (active_courses st))"
    and ok: "\<forall>(c, secs) \<in> set (active_courses st). \<forall>sec \<in> set secs. minute_times sec"
  shows "\<exists>st'. load_student_data entry (save_student_data auto WriteOk st) = Inr st'
     \<and> active_courses st' = active_courses st \<and> active_student_id st' = Some sid
     \<and> data_file_contents st' = data_file_contents (save_student_data auto WriteOk st)"
proof -
  let ?users = "if map_of (users_data st) sid = None
                then AList.update sid [] (users_data st) else users_data st"
  let ?final = "save_courses (active_courses st) []"
  let ?users' = "AList.update sid ?final ?users"
  let ?st1 = "save_student_data auto WriteOk st"
  have f: "?final = map (\<lambda>(c, secs). (c, save_sections secs)) (active_courses st)"
    using save_courses_distinct [OF d, of "[]"] by simp
  have c: "data_file_contents ?st1 = Contents ?users'"
    using sid by (simp add: save_student_data_def Let_def output_message_def)
  have m: "map_of ?users' sid = Some ?final" by (rule map_of_update_same)
  have l: "load_courses ?final [] = Inr (active_courses st)"
    using load_courses_distinct [OF d _ ok, of "[]"] f by simp
  from sid c m l show ?thesis
    by (simp add: load_student_data_def Let_def output_message_def)
qed


text \<open>
  C8. A time with zero seconds and microseconds survives \<open>time_to_string\<close> followed
  by \<open>string_to_time\<close>. When the catalog of the active student holds such times only,
  a save whose write succeeds followed by a load of the same student id, in this session or
  in any session that finds the file as the save left it, yields the original catalog.
\<close>

theorem save_load_round_trip:
  "(valid_time t \<and> minute_resolution t \<longrightarrow> string_to_time (time_to_string t) = Inr t)
   \<and> (active_student_id st = Some sid \<and> sid \<noteq> [] \<and> strip entry = sid
        \<and> distinct (map fst (active_courses st))
        \<and> (\<forall>(c, secs) \<in> set (active_courses st). \<forall>sec \<in> set secs. minute_times sec)
        \<and> data_file_contents st2 = data_file_contents (save_student_data auto WriteOk st) \<longrightarrow>
        (\<exists>st'. load_student_data entry st2 = Inr st'
           \<and> active_courses st' = active_courses st \<and> active_student_id st' = Some sid))"
proof (intro conjI impI)
  assume "valid_time t \<and> minute_resolution t"
  then show "string_to_time (time_to_string t) = Inr t"
    by (simp add: string_to_time_to_string)
next
  assume h: "active_student_id st = Some sid \<and> sid \<noteq> [] \<and> strip entry = sid
        \<and> distinct (map fst (active_courses st))
        \<and> (\<forall>(c, secs) \<in> set (active_courses st). \<forall>sec \<in> set secs. minute_times sec)
        \<and> data_file_contents st2 = data_file_contents (save_student_data auto WriteOk st)"
  then have d: "distinct (map fst (active_courses st))"
    and ok: "\<forall>(c, secs) \<in> set (active_courses st). \<forall>sec \<in> set secs. minute_times sec"
    by blast+
  let ?users = "if map_of (users_data st) sid = None
                then AList.update sid [] (users_data st) else users_data st"
  let ?final = "save_courses (active_courses st) []"
  let ?users' = "AList.update sid ?final ?users"
  have f: "?final = map (\<lambda>(c, secs). (c, save_sections secs)) (active_courses st)"
    using save_courses_distinct [OF d, of "[]"] by simp
  from h have s: "active_student_id st = Some sid" "sid \<noteq> []" "strip entry = sid"
    by blast+
  from s have "data_file_contents (save_student_data auto WriteOk st) = Contents ?users'"
    by (simp add: save_student_data_def Let_def output_message_def)
  with h have c: "data_file_contents st2 = Contents ?users'" by simp
  have m: "map_of ?users' sid = Some ?final" by (rule map_of_update_same)
  have l: "load_courses ?final [] = Inr (active_courses st)"
    using load_courses_distinct [OF d _ ok, of "[]"] f by simp
  from s c m l
  show "\<exists>st'. load_student_data entry st2 = Inr st'
           \<and> active_courses st' = active_courses st \<and> active_student_id st' = Some sid"
    by (simp add: load_student_data_def Let_def output_message_def)
qed

lemma strip_s1: "strip ''s1'' = ''s1''" "strip '' s1 '' = ''s1''"
  by (simp_all add: strip_def is_space_def)

theorem save_load_round_trip_witness:
  "string_to_time (time_to_string (clock 14 0)) = Inr (clock 14 0)
   \<and> (\<exists>st'. load_student_data ''s1''
               (init_app (data_file_contents (save_student_data True WriteOk scenario_d))) = Inr st'
          \<and> active_courses st' = [(''Algo'', [(''Tue'', clock 14 0, clock 15 20)])]
          \<and> active_student_id st' = Some ''s1'')"
proof -
  have t: "valid_time (clock 14 0) \<and> minute_resolution (clock 14 0)"
    by (simp add: clock_def valid_time_def minute_resolution_def)
  have a: "active_student_id scenario_d = Some ''s1''" "''s1'' \<noteq> []"
    "distinct (map fst (active_courses scenario_d))"
    "\<forall>(c, secs) \<in> set (active_courses scenario_d). \<forall>sec \<in> set secs. minute_times sec"
    "active_courses scenario_d = [(''Algo'', [(''Tue'', clock 14 0, clock 15 20)])]"
    by (simp_all add: scenario_d_def init_app_def minute_times_def clock_def valid_time_def
        minute_resolution_def)
  have f: "data_file_contents (init_app (data_file_contents (save_student_data True WriteOk scenario_d)))
    = data_file_contents (save_student_data True WriteOk scenario_d)"
    by (simp add: init_app_def)
  from save_load_round_trip [of "clock 14 0" scenario_d "''s1''" "''s1''"
      "init_app (data_file_contents (save_student_data True WriteOk scenario_d))" True]
    t a strip_s1(1) f
  show ?thesis by simp
qed

subsection \<open>Write failures\<close>

text \<open>
  C6, counterexample. An automatic save whose write fails leaves the output box as it was:
  the state it returns is the one a successful automatic save returns, except for the file.
\<close>

theorem auto_save_failure_silent:
  "output_box (auto_save (WriteFails ''No space left on device'' Corrupt) scenario_d)
     = output_box scenario_d
   \<and> auto_save (WriteFails ''No space left on device'' Corrupt) scenario_d
     = (auto_save WriteOk scenario_d)\<lparr>data_file_contents := Corrupt\<rparr>"
  by (simp add: auto_save_def save_student_data_def scenario_d_def init_app_def truthy_def Let_def)

text \<open>
  C6, amended. With an active student, an explicit save (\<open>auto = False\<close>) whose write
  fails appends the message \<open>Error saving data:\<close> with the reason to the output box.
  A save made with \<open>auto = True\<close>, as \<open>auto_save\<close> makes it, shows no message.
\<close>

theorem save_failure_reported_unless_auto:
  "(active_student_id st = Some sid \<and> sid \<noteq> [] \<longrightarrow>
      output_box (save_student_data False (WriteFails e left) st)
        = output_box st @ [Message (''Error saving data: '' @ e)])
   \<and> output_box (save_student_data True (WriteFails e left) st) = output_box st
   \<and> output_box (auto_save (WriteFails e left) st) = output_box st"
  by (auto simp: save_student_data_def auto_save_def output_message_def Let_def
      split: option.splits)

theorem save_failure_reported_unless_auto_witness:
  "output_box (save_student_data False (WriteFails ''No space left on device'' Corrupt) scenario_d)
     = [Message ''Error saving data: No space left on device'']"
proof -
  have a: "active_student_id scenario_d = Some ''s1''" "''s1'' \<noteq> []" "output_box scenario_d = []"
    by (simp_all add: scenario_d_def init_app_def)
  from save_failure_reported_unless_auto [of scenario_d "''s1''" "''No space left on device''" Corrupt] a
  show ?thesis by simp
qed

subsection \<open>Loading without a readable store\<close>

lemma load_corrupt_file_resets:
  assumes "strip entry = sid" "sid \<noteq> []" "data_file_contents st = Corrupt"
  shows "load_student_data entry st =
          Inr (output_message (''Loaded data for student ID: '' @ sid)
                (st\<lparr>users_data := [(sid, [])], active_student_id := Some sid,
                    active_courses := [], saved_courses_listbox := []\<rparr>))"
  using assms by (simp add: load_student_data_def Let_def)

text \<open>
  C7, at the failing input. In the session whose save failed the store file is missing,
  yet loading student \<open>s1\<close> again does not start fresh: \<open>users_data\<close> keeps its
  entries and the student gets the catalog with the course Algo, and no exception leaves
  the handler. With the same memory beside a file that cannot be parsed, the load resets
  \<open>users_data\<close> to the student's blank entry and gives an empty catalog.
\<close>

theorem load_missing_file_keeps_memory:
  "\<not> isl (load_student_data ''s1'' (init_app Missing))
   \<and> \<not> isl (add_section ''tuesday'' 14 0 15 20
              (projr (load_student_data ''s1'' (init_app Missing))))
   \<and> data_file_contents session_failed_save = Missing
   \<and> map_sum id users_data (load_student_data ''s1'' session_failed_save)
       = Inr [(''s1'', [(''Algo'', [(''Tuesday'', ''14:00'', ''15:20'')])])]
   \<and> map_sum id active_courses (load_student_data ''s1'' session_failed_save)
       = Inr [(''Algo'', [(''Tuesday'', clock 14 0, clock 15 20)])]
   \<and> map_sum id users_data
        (load_student_data ''s1'' (session_failed_save\<lparr>data_file_contents := Corrupt\<rparr>))
       = Inr [(''s1'', [])]
   \<and> map_sum id active_courses
        (load_student_data ''s1'' (session_failed_save\<lparr>data_file_contents := Corrupt\<rparr>))
       = Inr []"
  by code_simp

subsection \<open>Sections start before they end\<close>

lemma list_all_update:
  "list_all P xs \<Longrightarrow> P (k, v) \<Longrightarrow> list_all P (AList.update k v xs)"
  by (induction xs) auto

lemma list_all_delete: "list_all P xs \<Longrightarrow> list_all P (AList.delete k xs)"
  by (simp add: AList.delete_eq list_all_iff)

lemma list_all_remove_nth: "list_all P xs \<Longrightarrow> list_all P (remove_nth i xs)"
  unfolding remove_nth_def list_all_iff
  by (auto dest: in_set_takeD in_set_dropD)

lemma list_all_map_of:
  "list_all (\<lambda>(k, v). P v) xs \<Longrightarrow> map_of xs k = Some v \<Longrightarrow> P v"
  by (auto simp: list_all_iff dest: map_of_SomeD)

lemma sections_ordered_add_section:
  assumes "sections_ordered st" "add_section day sh sm eh em st = Inr st'"
  shows "sections_ordered st'"
  using assms
  by (auto simp: sections_ordered_def add_section_def output_message_def start_before_end_def
      Let_def split: sum.splits if_splits)

lemma sections_ordered_save_course:
  "sections_ordered st \<Longrightarrow> sections_ordered (save_course st)"
  by (auto simp: sections_ordered_def save_course_def output_message_def Let_def
      intro: list_all_update)

lemma sections_ordered_delete_course:
  "sections_ordered st \<Longrightarrow> sections_ordered (delete_course sel st)"
  by (auto simp: sections_ordered_def delete_course_def output_message_def Let_def
      intro: list_all_delete split: option.splits)

lemma sections_ordered_edit_course:
  assumes "sections_ordered st" "edit_course sel st = Inr st'"
  shows "sections_ordered st'"
proof (cases sel)
  case None
  with assms show ?thesis
    by (auto simp: sections_ordered_def edit_course_def output_message_def)
next
  case (Some index)
  let ?c = "listbox_get (saved_courses_listbox st) index"
  from assms(2) Some obtain secs where s: "map_of (active_courses st) ?c = Some secs"
    by (cases "map_of (active_courses st) ?c") (auto simp: edit_course_def Let_def)
  with assms(1) have o: "list_all start_before_end secs"
    using list_all_map_of [of "list_all start_before_end" "active_courses st" ?c secs]
    by (simp add: sections_ordered_def)
  from assms(1) have "list_all (\<lambda>(cname, secs). list_all start_before_end secs)
      (AList.delete ?c (active_courses st))"
    by (simp add: sections_ordered_def list_all_delete)
  with assms(2) Some s o show ?thesis
    by (auto simp: sections_ordered_def edit_course_def output_message_def Let_def)
qed

lemma sections_ordered_delete_section:
  assumes "sections_ordered st" "delete_section sel st = Inr st'"
  shows "sections_ordered st'"
  using assms
  by (auto simp: sections_ordered_def delete_section_def output_message_def
      intro: list_all_remove_nth split: option.splits if_splits)

lemma sections_ordered_save_student_data:
  "sections_ordered st \<Longrightarrow> sections_ordered (save_student_data auto w st)"
  by (auto simp: sections_ordered_def save_student_data_def output_message_def Let_def
      split: option.splits write_outcome.splits)

lemma sections_ordered_generate_schedules:
  "sections_ordered st \<Longrightarrow> sections_ordered (generate_schedules st)"
  by (auto simp: sections_ordered_def generate_schedules_def output_message_def Let_def
      split: option.splits)

text \<open>
  C9, amended. An add-section request whose times are clock values with the end not after
  the start, or whose hour or minute is refused with \<open>ValueError\<close>, changes nothing
  but the output box, which gets the message that informs the caller; a request with
  start before end appends exactly that section to the pending list. Hence the sections
  of the pending list and of the active catalog all start before they end in the initial
  state, and \<open>add_section\<close>, \<open>delete_section\<close>, \<open>save_course\<close>,
  \<open>edit_course\<close>, \<open>delete_course\<close>, \<open>save_student_data\<close> and
  \<open>generate_schedules\<close> keep it so.
\<close>

theorem add_section_rejects_unordered:
  "(mk_time start_h start_m = Inr s \<and> mk_time end_h end_m = Inr e
      \<and> time_tuple e \<le> time_tuple s \<longrightarrow>
      add_section day start_h start_m end_h end_m st
        = Inr (output_message ''End time must be after start time.'' st))
   \<and> (mk_time start_h start_m = Inl ValueError
        \<or> (mk_time start_h start_m = Inr s \<and> mk_time end_h end_m = Inl ValueError) \<longrightarrow>
      add_section day start_h start_m end_h end_m st
        = Inr (output_message ''Invalid time values.'' st))
   \<and> (mk_time start_h start_m = Inr s \<and> mk_time end_h end_m = Inr e
      \<and> time_tuple s < time_tuple e \<longrightarrow>
      add_section day start_h start_m end_h end_m st
        = Inr (st\<lparr>current_course_sections :=
                    current_course_sections st @ [(capitalize day, s, e)],
                  current_sections_listbox :=
                    current_sections_listbox st @ [section_label (capitalize day, s, e)]\<rparr>))
   \<and> sections_ordered (init_app f)
   \<and> (sections_ordered st \<longrightarrow>
        (\<forall>st'. add_section day start_h start_m end_h end_m st = Inr st' \<longrightarrow> sections_ordered st')
        \<and> sections_ordered (save_course st)
        \<and> sections_ordered (delete_course sel st)
        \<and> (\<forall>st'. edit_course sel st = Inr st' \<longrightarrow> sections_ordered st')
        \<and> (\<forall>st'. delete_section sel st = Inr st' \<longrightarrow> sections_ordered st')
        \<and> sections_ordered (save_student_data auto w st)
        \<and> sections_ordered (generate_schedules st))"
proof (intro conjI impI allI)
  assume "mk_time start_h start_m = Inr s \<and> mk_time end_h end_m = Inr e
      \<and> time_tuple e \<le> time_tuple s"
  then show "add_section day start_h start_m end_h end_m st
        = Inr (output_message ''End time must be after start time.'' st)"
    by (simp add: add_section_def Let_def)
next
  assume "mk_time start_h start_m = Inl ValueError
        \<or> (mk_time start_h start_m = Inr s \<and> mk_time end_h end_m = Inl ValueError)"
  then show "add_section day start_h start_m end_h end_m st
      = Inr (output_message ''Invalid time values.'' st)"
    by (elim disjE) (simp_all add: add_section_def Let_def)
next
  assume "mk_time start_h start_m = Inr s \<and> mk_time end_h end_m = Inr e
      \<and> time_tuple s < time_tuple e"
  then have m: "mk_time start_h start_m = Inr s" "mk_time end_h end_m = Inr e"
    and n: "\<not> time_tuple e \<le> time_tuple s"
    by (simp_all only: not_le)
  show "add_section day start_h start_m end_h end_m st
        = Inr (st\<lparr>current_course_sections :=
                    current_course_sections st @ [(capitalize day, s, e)],
                  current_sections_listbox :=
                    current_sections_listbox st @ [section_label (capitalize day, s, e)]\<rparr>)"
    unfolding add_section_def Let_def m sum.case if_not_P [OF n] ..
next
  show "sections_ordered (init_app f)" by (simp add: sections_ordered_def init_app_def)
next
  assume o: "sections_ordered st"
  from o show "sections_ordered (save_course st)" by (rule sections_ordered_save_course)
  from o show "sections_ordered (delete_course sel st)" by (rule sections_ordered_delete_course)
  from o show "sections_ordered (save_student_data auto w st)"
    by (rule sections_ordered_save_student_data)
  from o show "sections_ordered (generate_schedules st)"
    by (rule sections_ordered_generate_schedules)
  fix st'
  {
    assume "add_section day start_h start_m end_h end_m st = Inr st'"
    with o show "sections_ordered st'" by (rule sections_ordered_add_section)
  }
  {
    assume "edit_course sel st = Inr st'"
    with o show "sections_ordered st'" by (rule sections_ordered_edit_course)
  }
  {
    assume "delete_section sel st = Inr st'"
    with o show "sections_ordered st'" by (rule sections_ordered_delete_section)
  }
qed

text \<open>
  Beyond the C \<open>int\<close> range the constructor's exception is not the one the handler
  catches, so it leaves the handler and no message is shown.
\<close>

lemma add_section_overflow:
  "add_section ''monday'' 4294967296 0 10 0 st = Inl OverflowError"
  by (simp add: add_section_def mk_time_def c_int_def)

text \<open>
  C9, counterexample. \<open>load_student_data\<close> does not check the sections it reads:
  from a store file whose section runs from 10:00 to 09:00 the active catalog gets a
  section that ends before it starts.
\<close>

theorem load_keeps_unordered_section:
  "map_sum id active_courses (load_student_data ''s1'' (init_app reversed_store))
     = Inr [(''Math'', [(''Monday'', clock 10 0, clock 9 0)])]
   \<and> \<not> start_before_end (''Monday'', clock 10 0, clock 9 0)"
  by code_simp

theorem add_section_rejects_unordered_witness:
  "add_section ''monday'' 10 0 9 0 scenario_d
     = Inr (output_message ''End time must be after start time.'' scenario_d)
   \<and> add_section ''monday'' 24 0 9 0 scenario_d
     = Inr (output_message ''Invalid time values.'' scenario_d)
   \<and> current_course_sections (output_message ''End time must be after start time.'' scenario_d)
       = current_course_sections scenario_d
   \<and> sections_ordered scenario_d
   \<and> sections_ordered (projr (add_section ''monday'' 8 30 10 20 scenario_d))
   \<and> current_course_sections (projr (add_section ''monday'' 8 30 10 20 scenario_d))
       = [(''Monday'', clock 8 30, clock 10 20)]"
proof -
  have m: "mk_time 10 0 = Inr (clock 10 0)" "mk_time 9 0 = Inr (clock 9 0)"
    "mk_time 8 30 = Inr (clock 8 30)" "mk_time 10 20 = Inr (clock 10 20)"
    "mk_time 24 0 = Inl ValueError"
    by (simp_all add: mk_time_def c_int_def clock_def)
  have t: "time_tuple (clock 9 0) \<le> time_tuple (clock 10 0)"
    "time_tuple (clock 8 30) < time_tuple (clock 10 20)"
    by (simp_all add: time_tuple_def clock_def)
  have o: "sections_ordered scenario_d"
    by (simp add: sections_ordered_def scenario_d_def init_app_def start_before_end_def
        time_tuple_def clock_def)
  have c: "capitalize ''monday'' = ''Monday''" "current_course_sections scenario_d = []"
    by (simp_all add: char_upper_def lower_def char_lower_def scenario_d_def init_app_def)
  from add_section_rejects_unordered
    [of 10 0 "clock 10 0" 9 0 "clock 9 0" "''monday''" scenario_d] m t
  have 1: "add_section ''monday'' 10 0 9 0 scenario_d
     = Inr (output_message ''End time must be after start time.'' scenario_d)"
    by blast
  from add_section_rejects_unordered
    [of 24 0 "clock 10 0" 9 0 "clock 9 0" "''monday''" scenario_d] m
  have r2: "add_section ''monday'' 24 0 9 0 scenario_d
     = Inr (output_message ''Invalid time values.'' scenario_d)"
    by blast
  have 2: "current_course_sections (output_message ''End time must be after start time.'' scenario_d)
       = current_course_sections scenario_d"
    by (simp add: output_message_def)
  from add_section_rejects_unordered
    [of 8 30 "clock 8 30" 10 20 "clock 10 20" "''monday''" scenario_d] m t o
  have 4: "add_section ''monday'' 8 30 10 20 scenario_d
        = Inr (scenario_d\<lparr>current_course_sections :=
                 current_course_sections scenario_d @ [(capitalize ''monday'', clock 8 30, clock 10 20)],
               current_sections_listbox :=
                 current_sections_listbox scenario_d
                   @ [section_label (capitalize ''monday'', clock 8 30, clock 10 20)]\<rparr>)"
    and 3: "\<forall>st'. add_section ''monday'' 8 30 10 20 scenario_d = Inr st' \<longrightarrow> sections_ordered st'"
    by blast+
  from 3 4 have r3: "sections_ordered (projr (add_section ''monday'' 8 30 10 20 scenario_d))"
    by simp
  from 4 c have 5: "current_course_sections (projr (add_section ''monday'' 8 30 10 20 scenario_d))
       = [(''Monday'', clock 8 30, clock 10 20)]"
    by simp
  from 1 r2 2 o r3 5 show ?thesis by blast
qed

subsection \<open>Editing a course takes it out of the catalog\<close>



















end
